theory Spec2Isabelle
  imports Main
begin

section \<open>HistoryBlock (regular-expression fork): the background script of options.js\<close>

text \<open>
  The file holds two classes: \<open>Options\<close> (the options page) and \<open>HistoryBlock\<close> (the
  background script). The background script keeps a list of regular expressions under the
  key \<open>blacklist\<close> and a mode under the key \<open>listMode\<close> of \<open>browser.storage.sync\<close>, and
  deletes a visited address from the history depending on both.

  Every method is an \<open>async\<close> function; the model runs each of them to completion, one after
  the other. A fulfilled promise is \<open>Returned v\<close>, a rejected one \<open>Threw e\<close>. The storage
  interface is taken to succeed.
\<close>

subsection \<open>Values, errors and the browser's state\<close>

datatype jsval = JUndefined | JNull | JBool bool | JNum int | JStr string

datatype js_error = TypeError | SyntaxError

datatype 'a outcome = Returned 'a | Threw js_error

text \<open>The calls of the browser interface that change something, in the order they are made.\<close>

datatype event =
    StorageSet_blacklist "string list"
  | StorageSet_listMode jsval
  | StorageRemove_blacklist
  | SendMessage_blacklistUpdated
  | History_deleteUrl string

text \<open>
  What \<open>browser.storage.sync.get()\<close> returns: the key \<open>blacklist\<close> (absent, or an array of
  strings), the key \<open>listMode\<close> (\<open>JUndefined\<close> when absent) and, in the record's extension,
  every other key.
\<close>

record storage =
  blacklist :: "string list option"
  listMode :: jsval

record 'a world =
  sync :: "'a storage_scheme"
  trace :: "event list"

text \<open>
  \<open>browser.storage.sync.set\<close> writes the keys of its argument and leaves the others. A key
  whose value is \<open>undefined\<close> is dropped when the argument is serialised, so the call is made
  and stores nothing.
\<close>

definition storage_sync_set_blacklist :: "string list \<Rightarrow> 'a world \<Rightarrow> 'a world" where
  "storage_sync_set_blacklist bl w =
     w\<lparr>sync := (sync w)\<lparr>blacklist := Some bl\<rparr>,
       trace := trace w @ [StorageSet_blacklist bl]\<rparr>"

definition storage_sync_set_listMode :: "jsval \<Rightarrow> 'a world \<Rightarrow> 'a world" where
  "storage_sync_set_listMode v w =
     w\<lparr>sync := (if v = JUndefined then sync w else (sync w)\<lparr>listMode := v\<rparr>),
       trace := trace w @ [StorageSet_listMode v]\<rparr>"

definition storage_sync_remove_blacklist :: "'a world \<Rightarrow> 'a world" where
  "storage_sync_remove_blacklist w =
     w\<lparr>sync := (sync w)\<lparr>blacklist := None\<rparr>,
       trace := trace w @ [StorageRemove_blacklist]\<rparr>"

definition runtime_sendMessage_blacklistUpdated :: "'a world \<Rightarrow> 'a world" where
  "runtime_sendMessage_blacklistUpdated w =
     w\<lparr>trace := trace w @ [SendMessage_blacklistUpdated]\<rparr>"

definition history_deleteUrl :: "string \<Rightarrow> 'a world \<Rightarrow> 'a world" where
  "history_deleteUrl url w = w\<lparr>trace := trace w @ [History_deleteUrl url]\<rparr>"

subsection \<open>The library functions the script calls\<close>

text \<open>\<open>!v\<close>: the values JavaScript takes for false.\<close>

fun falsy :: "jsval \<Rightarrow> bool" where
  "falsy JUndefined = True"
| "falsy JNull = True"
| "falsy (JBool b) = (\<not> b)"
| "falsy (JNum n) = (n = 0)"
| "falsy (JStr s) = (s = [])"

text \<open>
  \<open>String.prototype.trim\<close>: white space and line terminators go from both ends. A character
  stands for a code unit below 256: tab, line feed, vertical tab, form feed, carriage return,
  space and the no-break space.
\<close>

definition isWhiteSpace :: "char \<Rightarrow> bool" where
  "isWhiteSpace c =
     (c \<in> set [CHR 0x09, CHR 0x0A, CHR 0x0B, CHR 0x0C, CHR 0x0D, CHR 0x20, CHR 0xA0])"

definition trim :: "string \<Rightarrow> string" where
  "trim s = rev (dropWhile isWhiteSpace (rev (dropWhile isWhiteSpace s)))"

text \<open>\<open>s.split(',')\<close>: the pieces between the commas, the empty ones too.\<close>

fun split_comma :: "string \<Rightarrow> string list" where
  "split_comma [] = [[]]"
| "split_comma (c # cs) =
     (if c = CHR '','' then [] # split_comma cs
      else (case split_comma cs of
              [] \<Rightarrow> [[c]]
            | t # ts \<Rightarrow> (c # t) # ts))"

text \<open>\<open>xs.indexOf(x)\<close> is \<open>-1\<close> when \<open>x\<close> is not an element.\<close>

definition indexOf :: "'a list \<Rightarrow> 'a \<Rightarrow> int" where
  "indexOf xs x =
     (if x \<in> set xs then int (length (takeWhile (\<lambda>y. y \<noteq> x) xs)) else - 1)"

text \<open>\<open>xs.splice(start, 1)\<close>: a negative start counts from the end.\<close>

definition splice1 :: "int \<Rightarrow> 'a list \<Rightarrow> 'a list" where
  "splice1 start xs =
     (let n = int (length xs);
          s = (if start < 0 then max (n + start) 0 else min start n)
      in take (nat s) xs @ drop (Suc (nat s)) xs)"

text \<open>
  \<open>new RegExp(p)\<close> and \<open>re.test(url)\<close> belong to the host. The script sees two things of
  them: whether the constructor throws a \<open>SyntaxError\<close> (\<open>None\<close>), and otherwise the answer
  of \<open>test\<close> on an address. A regular expression made without flags keeps no position
  between calls, so \<open>test\<close> is a function of the address.
\<close>

type_synonym regexp_host = "string \<Rightarrow> (string \<Rightarrow> bool) option"

subsection \<open>class HistoryBlock\<close>

text \<open>
  The only member the methods read is \<open>this.hash\<close>, in \<open>importBlacklist\<close>. The constructor
  calls \<open>createContextMenuItems\<close> and \<open>attachEventListeners\<close> and assigns no member, so on
  the object it makes \<open>this.hash\<close> is \<open>undefined\<close> (\<open>None\<close>).
\<close>

record historyBlock =
  hash :: "(string \<Rightarrow> bool) option"

definition HistoryBlock_new :: historyBlock where
  "HistoryBlock_new = \<lparr>hash = None\<rparr>"

text \<open>\<open>getBlacklist\<close>: an absent \<open>blacklist\<close> is first stored as the empty array, then read again.\<close>

definition getBlacklist :: "'a world \<Rightarrow> string list option \<times> 'a world" where
  "getBlacklist w =
     (if blacklist (sync w) = None
      then (let w1 = storage_sync_set_blacklist [] w in (blacklist (sync w1), w1))
      else (blacklist (sync w), w))"

text \<open>
  The loop of \<open>onPageVisited\<close>: it stops at the first pattern that matches, and the
  constructor's exception leaves it.
\<close>

fun findMatch :: "regexp_host \<Rightarrow> string \<Rightarrow> string list \<Rightarrow> bool outcome" where
  "findMatch RegExp url [] = Returned False"
| "findMatch RegExp url (p # ps) =
     (case RegExp p of
        None \<Rightarrow> Threw SyntaxError
      | Some re \<Rightarrow> if re url then Returned True else findMatch RegExp url ps)"

definition onPageVisited :: "regexp_host \<Rightarrow> string \<Rightarrow> 'a world \<Rightarrow> jsval outcome \<times> 'a world" where
  "onPageVisited RegExp url w =
     (case getBlacklist w of
        (None, w1) \<Rightarrow> (Threw TypeError, w1)
      | (Some bl, w1) \<Rightarrow>
          (let isBlacklist = (listMode (sync w1) = JStr ''blacklist'')
           in case findMatch RegExp url bl of
                Threw e \<Rightarrow> (Threw e, w1)
              | Returned found \<Rightarrow>
                  if (isBlacklist \<and> found) \<or> (\<not> isBlacklist \<and> \<not> found)
                  then (Returned JUndefined, history_deleteUrl url w1)
                  else (Returned JUndefined, w1)))"

definition clearBlacklist :: "'a world \<Rightarrow> jsval outcome \<times> 'a world" where
  "clearBlacklist w =
     (let w1 = storage_sync_remove_blacklist w;
          w2 = snd (getBlacklist w1)
      in (Returned JUndefined, runtime_sendMessage_blacklistUpdated w2))"

text \<open>
  The loop of \<open>importBlacklist\<close>. \<open>this.hash.test(hash)\<close> is evaluated only for a token
  that the list does not hold yet, and reading \<open>test\<close> of \<open>undefined\<close> is a \<open>TypeError\<close>.
\<close>

fun importLoop :: "(string \<Rightarrow> bool) option \<Rightarrow> string list \<Rightarrow> string list \<Rightarrow> js_error + string list" where
  "importLoop h [] bl = Inr bl"
| "importLoop h (t # ts) bl =
     (let tok = trim t
      in if tok \<notin> set bl
         then (case h of
                 None \<Rightarrow> Inl TypeError
               | Some test \<Rightarrow>
                   if test tok then importLoop h ts (bl @ [tok]) else importLoop h ts bl)
         else importLoop h ts bl)"

definition importBlacklist :: "historyBlock \<Rightarrow> string \<Rightarrow> 'a world \<Rightarrow> jsval outcome \<times> 'a world" where
  "importBlacklist this list w =
     (if list \<noteq> []
      then (case getBlacklist w of
              (None, w1) \<Rightarrow> (Threw TypeError, w1)
            | (Some bl0, w1) \<Rightarrow>
                (case importLoop (hash this) (split_comma list) bl0 of
                   Inl e \<Rightarrow> (Threw e, w1)
                 | Inr bl \<Rightarrow>
                     (Returned JUndefined,
                      runtime_sendMessage_blacklistUpdated (storage_sync_set_blacklist bl w1))))
      else (Returned JUndefined, w))"

definition block :: "string \<Rightarrow> 'a world \<Rightarrow> jsval outcome \<times> 'a world" where
  "block regex w =
     (case getBlacklist w of
        (None, w1) \<Rightarrow> (Threw TypeError, w1)
      | (Some bl0, w1) \<Rightarrow>
          if regex \<notin> set bl0
          then (Returned JUndefined,
                runtime_sendMessage_blacklistUpdated
                  (storage_sync_set_blacklist (bl0 @ [regex]) w1))
          else (Returned JUndefined, w1))"

definition unblock :: "string \<Rightarrow> 'a world \<Rightarrow> jsval outcome \<times> 'a world" where
  "unblock regex w =
     (case getBlacklist w of
        (None, w1) \<Rightarrow> (Threw TypeError, w1)
      | (Some bl0, w1) \<Rightarrow>
          if regex \<in> set bl0
          then (Returned JUndefined,
                runtime_sendMessage_blacklistUpdated
                  (storage_sync_set_blacklist (splice1 (indexOf bl0 regex) bl0) w1))
          else (Returned JUndefined, w1))"

definition changeListMode :: "jsval \<Rightarrow> 'a world \<Rightarrow> jsval outcome \<times> 'a world" where
  "changeListMode v w =
     (let v' = (if falsy v then listMode (sync w) else v)
      in (Returned JUndefined, storage_sync_set_listMode v' w))"

text \<open>The messages \<open>onMessage\<close> routes, by their \<open>action\<close>; any other action does nothing.\<close>

datatype message =
    AddToBlacklist string
  | ImportBlacklist string
  | RemoveFromBlacklist string
  | ClearBlacklist
  | ChangeListMode jsval
  | OtherAction

fun onMessage :: "historyBlock \<Rightarrow> message \<Rightarrow> 'a world \<Rightarrow> jsval outcome \<times> 'a world" where
  "onMessage this (AddToBlacklist url) w = block url w"
| "onMessage this (ImportBlacklist list) w = importBlacklist this list w"
| "onMessage this (RemoveFromBlacklist url) w = unblock url w"
| "onMessage this ClearBlacklist w = clearBlacklist w"
| "onMessage this (ChangeListMode v) w = changeListMode v w"
| "onMessage this OtherAction w = (Returned JUndefined, w)"

subsection \<open>class Options\<close>

text \<open>
  \<open>Options.changeListMode\<close> is the handler of the mode control of the options page. It sends
  the \<open>changeListMode\<close> message, which the background script's \<open>onMessage\<close> receives, for the
  two mode names only; \<open>renderBlacklistMatching\<close>, which follows, reads the storage and
  sets controls of the page.
\<close>

definition Options_changeListMode :: "historyBlock \<Rightarrow> jsval \<Rightarrow> 'a world \<Rightarrow> jsval outcome \<times> 'a world" where
  "Options_changeListMode background v w =
     (if v = JStr ''whitelist'' \<or> v = JStr ''blacklist''
      then (case onMessage background (ChangeListMode v) w of
              (Threw e, w1) \<Rightarrow> (Threw e, w1)
            | (Returned r, w1) \<Rightarrow> (Returned JUndefined, w1))
      else (Returned JUndefined, w))"

subsection \<open>What the statements below observe\<close>

text \<open>The pattern list as \<open>getBlacklist\<close> reads it: an absent key reads as the empty list.\<close>

definition patterns :: "'a storage_scheme \<Rightarrow> string list" where
  "patterns s = (case blacklist s of None \<Rightarrow> [] | Some bl \<Rightarrow> bl)"

text \<open>The calls made between two states of the browser, and those that write the storage.\<close>

definition new_events :: "'a world \<Rightarrow> 'a world \<Rightarrow> event list" where
  "new_events w w' = drop (length (trace w)) (trace w')"

fun is_storage_write :: "event \<Rightarrow> bool" where
  "is_storage_write (StorageSet_blacklist bl) = True"
| "is_storage_write (StorageSet_listMode v) = True"
| "is_storage_write StorageRemove_blacklist = True"
| "is_storage_write SendMessage_blacklistUpdated = False"
| "is_storage_write (History_deleteUrl url) = False"

text \<open>A visit purges the address when \<open>onPageVisited\<close> calls \<open>history.deleteUrl\<close> on it.\<close>

definition purged :: "regexp_host \<Rightarrow> string \<Rightarrow> 'a world \<Rightarrow> bool" where
  "purged RegExp url w =
     (History_deleteUrl url \<in> set (new_events w (snd (onPageVisited RegExp url w))))"

text \<open>
  A pattern compiles when the constructor accepts it; it matches an address when it
  compiles and \<open>test\<close> answers true.
\<close>

definition compiles :: "regexp_host \<Rightarrow> string \<Rightarrow> bool" where
  "compiles RegExp p = (RegExp p \<noteq> None)"

definition matches :: "regexp_host \<Rightarrow> string \<Rightarrow> string \<Rightarrow> bool" where
  "matches RegExp p url = (case RegExp p of None \<Rightarrow> False | Some re \<Rightarrow> re url)"

text \<open>Of every string of a list its first occurrence, in the order of the list.\<close>

primrec keepFirst :: "string list \<Rightarrow> string list" where
  "keepFirst [] = []"
| "keepFirst (x # xs) = x # filter (\<lambda>y. y \<noteq> x) (keepFirst xs)"

subsection \<open>A host for the examples\<close>

text \<open>
  The general statements hold for every host. The examples need one that can be evaluated.
  ECMAScript gives the characters \<open>^ $ \ . * + ? ( ) [ ] { } |\<close> a meaning of their own; a
  pattern without them matches itself, and \<open>test\<close> finds it anywhere in the address. The
  pattern \<open>(\<close> is an unterminated group, which the constructor rejects with a \<open>SyntaxError\<close>.
  The examples use \<open>literal_RegExp\<close> on patterns of these two kinds only; it rejects every
  other pattern with a syntax character, which the host need not do.
\<close>

definition syntaxCharacter :: "char \<Rightarrow> bool" where
  "syntaxCharacter c = (c \<in> set (CHR 0x5C # ''^$.*+?()[]{}|''))"

fun startsWith :: "string \<Rightarrow> string \<Rightarrow> bool" where
  "startsWith s [] = True"
| "startsWith [] (c # cs) = False"
| "startsWith (d # ds) (c # cs) = (d = c \<and> startsWith ds cs)"

fun occursIn :: "string \<Rightarrow> string \<Rightarrow> bool" where
  "occursIn p [] = (p = [])"
| "occursIn p (c # cs) = (startsWith (c # cs) p \<or> occursIn p cs)"

definition literal_RegExp :: regexp_host where
  "literal_RegExp p = (if list_ex syntaxCharacter p then None else Some (occursIn p))"

text \<open>A profile in which nothing is stored yet, and one with given patterns and mode.\<close>

definition fresh :: "unit world" where
  "fresh = \<lparr>sync = \<lparr>blacklist = None, listMode = JUndefined\<rparr>, trace = []\<rparr>"

definition stored :: "string list \<Rightarrow> jsval \<Rightarrow> unit world" where
  "stored bl v = \<lparr>sync = \<lparr>blacklist = Some bl, listMode = v\<rparr>, trace = []\<rparr>"

section \<open>Facts about the operations\<close>

lemma getBlacklist_fst: "fst (getBlacklist w) = Some (patterns (sync w))"
  by (cases "blacklist (sync w)")
     (simp_all add: getBlacklist_def patterns_def storage_sync_set_blacklist_def)

lemma getBlacklist_snd:
  "snd (getBlacklist w) =
     (if blacklist (sync w) = None then storage_sync_set_blacklist [] w else w)"
  by (simp add: getBlacklist_def Let_def)

lemma getBlacklist_eq:
  "getBlacklist w = (Some (patterns (sync w)), snd (getBlacklist w))"
  using getBlacklist_fst [of w] by (cases "getBlacklist w") simp

lemma sync_getBlacklist:
  "sync (snd (getBlacklist w)) =
     (if blacklist (sync w) = None then (sync w)\<lparr>blacklist := Some []\<rparr> else sync w)"
  by (simp add: getBlacklist_snd storage_sync_set_blacklist_def)

lemma patterns_getBlacklist: "patterns (sync (snd (getBlacklist w))) = patterns (sync w)"
  by (simp add: sync_getBlacklist patterns_def)

lemma listMode_getBlacklist: "listMode (sync (snd (getBlacklist w))) = listMode (sync w)"
  by (simp add: sync_getBlacklist)

lemma trace_getBlacklist:
  "trace (snd (getBlacklist w)) =
     trace w @ (if blacklist (sync w) = None then [StorageSet_blacklist []] else [])"
  by (simp add: getBlacklist_snd storage_sync_set_blacklist_def)

lemma findMatch_False:
  "findMatch R url ps = Returned False \<longleftrightarrow> (\<forall>p\<in>set ps. compiles R p \<and> \<not> matches R p url)"
  by (induction ps) (auto simp: compiles_def matches_def split: option.splits)

lemma findMatch_True:
  "findMatch R url ps = Returned True \<longleftrightarrow>
     (\<exists>i<length ps. matches R (ps ! i) url \<and> (\<forall>p\<in>set (take i ps). compiles R p))"
proof (induction ps)
  case Nil
  then show ?case by simp
next
  case (Cons q qs)
  show ?case
  proof (cases "R q")
    case None
    have "\<not> (\<exists>i<length (q # qs). matches R ((q # qs) ! i) url
              \<and> (\<forall>p\<in>set (take i (q # qs)). compiles R p))"
    proof
      assume "\<exists>i<length (q # qs). matches R ((q # qs) ! i) url
              \<and> (\<forall>p\<in>set (take i (q # qs)). compiles R p)"
      then obtain i where i: "matches R ((q # qs) ! i) url"
        "\<forall>p\<in>set (take i (q # qs)). compiles R p" by blast
      show False
      proof (cases i)
        case 0
        with i(1) None show False by (simp add: matches_def)
      next
        case (Suc j)
        with i(2) None show False by (simp add: compiles_def)
      qed
    qed
    with None show ?thesis by simp
  next
    case (Some re)
    show ?thesis
    proof (cases "re url")
      case True
      with Some have "matches R ((q # qs) ! 0) url" by (simp add: matches_def)
      then have "\<exists>i<length (q # qs). matches R ((q # qs) ! i) url
              \<and> (\<forall>p\<in>set (take i (q # qs)). compiles R p)"
        by (intro exI [of _ 0]) simp
      with Some True show ?thesis by simp
    next
      case False
      have "(\<exists>i<length (q # qs). matches R ((q # qs) ! i) url
              \<and> (\<forall>p\<in>set (take i (q # qs)). compiles R p))
            \<longleftrightarrow> (\<exists>i<length qs. matches R (qs ! i) url \<and> (\<forall>p\<in>set (take i qs). compiles R p))"
        (is "?L \<longleftrightarrow> ?N")
      proof
        assume ?L
        then obtain i where i: "i < length (q # qs)" "matches R ((q # qs) ! i) url"
          "\<forall>p\<in>set (take i (q # qs)). compiles R p" by blast
        from i(2) Some False obtain j where j: "i = Suc j"
          by (cases i) (auto simp: matches_def)
        with i show ?N by auto
      next
        assume ?N
        then obtain j where j: "j < length qs" "matches R (qs ! j) url"
          "\<forall>p\<in>set (take j qs). compiles R p" by blast
        with Some show ?L
          by (intro exI [of _ "Suc j"]) (simp add: compiles_def)
      qed
      with Some False Cons.IH show ?thesis by simp
    qed
  qed
qed

lemma findMatch_invalid:
  "\<not> compiles R p \<Longrightarrow> \<forall>q\<in>set ps1. compiles R q \<and> \<not> matches R q url \<Longrightarrow>
   findMatch R url (ps1 @ p # ps2) = Threw SyntaxError"
  by (induction ps1) (auto simp: compiles_def matches_def split: option.splits)

lemma onPageVisited_eq:
  "onPageVisited R url w =
     (case findMatch R url (patterns (sync w)) of
        Threw e \<Rightarrow> (Threw e, snd (getBlacklist w))
      | Returned found \<Rightarrow>
          if (listMode (sync w) = JStr ''blacklist'') = found
          then (Returned JUndefined, history_deleteUrl url (snd (getBlacklist w)))
          else (Returned JUndefined, snd (getBlacklist w)))"
  unfolding onPageVisited_def
  by (subst getBlacklist_eq) (auto simp: listMode_getBlacklist Let_def split: outcome.splits)

lemma purged_iff:
  "purged R url w \<longleftrightarrow>
     findMatch R url (patterns (sync w)) = Returned (listMode (sync w) = JStr ''blacklist'')"
  by (auto simp: purged_def onPageVisited_eq new_events_def trace_getBlacklist
      history_deleteUrl_def split: outcome.splits)

lemma findMatch_all_compile:
  "\<forall>p\<in>set ps. compiles R p \<Longrightarrow>
   findMatch R url ps = Returned (\<exists>p\<in>set ps. matches R p url)"
  by (induction ps) (auto simp: compiles_def matches_def split: option.splits)

lemma set_keepFirst: "set (keepFirst xs) = set xs"
  by (induction xs) auto

lemma distinct_keepFirst: "distinct (keepFirst xs)"
  by (induction xs) auto

lemma filter_keepFirst: "filter P (keepFirst xs) = keepFirst (filter P xs)"
proof (induction xs)
  case Nil
  then show ?case by simp
next
  case (Cons x xs)
  show ?case
  proof (cases "P x")
    case True
    have "filter P (filter (\<lambda>y. y \<noteq> x) (keepFirst xs))
          = filter (\<lambda>y. y \<noteq> x) (filter P (keepFirst xs))"
      by (simp add: conj_commute)
    with True Cons.IH show ?thesis by simp
  next
    case False
    then have "x \<notin> set (keepFirst (filter P xs))"
      by (simp add: set_keepFirst)
    then have "filter (\<lambda>y. y \<noteq> x) (keepFirst (filter P xs)) = keepFirst (filter P xs)"
      by (auto simp: filter_id_conv)
    moreover have "filter P (filter (\<lambda>y. y \<noteq> x) (keepFirst xs))
          = filter (\<lambda>y. y \<noteq> x) (filter P (keepFirst xs))"
      by (simp add: conj_commute)
    ultimately show ?thesis using False Cons.IH by simp
  qed
qed

lemma importLoop_Some:
  "importLoop (Some h) ts bl =
     Inr (bl @ keepFirst (filter (\<lambda>t. t \<notin> set bl \<and> h t) (map trim ts)))"
proof (induction ts arbitrary: bl)
  case Nil
  then show ?case by simp
next
  case (Cons t ts)
  show ?case
  proof (cases "trim t \<notin> set bl \<and> h (trim t)")
    case True
    have "filter (\<lambda>y. y \<noteq> trim t) (keepFirst (filter (\<lambda>t. t \<notin> set bl \<and> h t) (map trim ts)))
          = keepFirst (filter (\<lambda>u. u \<notin> set (bl @ [trim t]) \<and> h u) (map trim ts))"
      by (simp add: filter_keepFirst conj_ac)
    with True Cons.IH [of "bl @ [trim t]"] show ?thesis by (simp add: Let_def)
  next
    case False
    with Cons.IH [of bl] show ?thesis by (auto simp: Let_def)
  qed
qed

lemma importLoop_None:
  "importLoop None ts bl =
     (if \<forall>t\<in>set ts. trim t \<in> set bl then Inr bl else Inl TypeError)"
  by (induction ts arbitrary: bl) (auto simp: Let_def)

lemma importLoop_distinct:
  "importLoop h ts bl = Inr bl' \<Longrightarrow> distinct bl \<Longrightarrow> distinct bl'"
proof (cases h)
  case None
  assume "importLoop h ts bl = Inr bl'" "distinct bl"
  with None show ?thesis by (simp add: importLoop_None split: if_splits)
next
  case (Some f)
  assume "importLoop h ts bl = Inr bl'" "distinct bl"
  with Some show ?thesis
    by (auto simp: importLoop_Some distinct_keepFirst set_keepFirst)
qed

lemma splice1_indexOf:
  "x \<in> set xs \<Longrightarrow> splice1 (indexOf xs x) xs = remove1 x xs"
proof -
  assume x: "x \<in> set xs"
  have len: "length (takeWhile (\<lambda>y. y \<noteq> x) xs) \<le> length xs"
    by (rule length_takeWhile_le)
  have "take (length (takeWhile (\<lambda>y. y \<noteq> x) xs)) xs
          @ drop (Suc (length (takeWhile (\<lambda>y. y \<noteq> x) xs))) xs = remove1 x xs"
    using x by (induction xs) auto
  with x len show ?thesis
    by (simp add: splice1_def indexOf_def Let_def min_def)
qed

lemma findMatch_after_match:
  "\<exists>q\<in>set ps1. matches R q url \<Longrightarrow> \<forall>q\<in>set ps1. compiles R q \<Longrightarrow>
   findMatch R url (ps1 @ rest) = Returned True"
  by (induction ps1) (auto simp: compiles_def matches_def split: option.splits)

lemma block_eq:
  "block regex w =
     (if regex \<notin> set (patterns (sync w))
      then (Returned JUndefined,
            runtime_sendMessage_blacklistUpdated
              (storage_sync_set_blacklist (patterns (sync w) @ [regex]) (snd (getBlacklist w))))
      else (Returned JUndefined, snd (getBlacklist w)))"
  unfolding block_def by (subst getBlacklist_eq) simp

lemma unblock_eq:
  "unblock regex w =
     (if regex \<in> set (patterns (sync w))
      then (Returned JUndefined,
            runtime_sendMessage_blacklistUpdated
              (storage_sync_set_blacklist (remove1 regex (patterns (sync w)))
                 (snd (getBlacklist w))))
      else (Returned JUndefined, snd (getBlacklist w)))"
  unfolding unblock_def by (subst getBlacklist_eq) (simp add: splice1_indexOf)

lemma importBlacklist_eq:
  "importBlacklist this list w =
     (if list \<noteq> []
      then (case importLoop (hash this) (split_comma list) (patterns (sync w)) of
              Inl e \<Rightarrow> (Threw e, snd (getBlacklist w))
            | Inr bl \<Rightarrow>
                (Returned JUndefined,
                 runtime_sendMessage_blacklistUpdated
                   (storage_sync_set_blacklist bl (snd (getBlacklist w)))))
      else (Returned JUndefined, w))"
  unfolding importBlacklist_def by (subst getBlacklist_eq) simp

lemma importBlacklist_hash_undefined:
  "hash this = None \<Longrightarrow> list \<noteq> [] \<Longrightarrow>
   fst (importBlacklist this list w) =
     (if \<forall>t\<in>set (split_comma list). trim t \<in> set (patterns (sync w))
      then Returned JUndefined else Threw TypeError)"
  by (simp add: importBlacklist_eq importLoop_None)

lemma stored_patterns: "regex \<in> set (patterns (sync w)) \<Longrightarrow> snd (getBlacklist w) = w"
  by (auto simp: getBlacklist_snd patterns_def)

lemma set_blacklist_twice:
  "sync (storage_sync_set_blacklist bl (snd (getBlacklist w))) = (sync w)\<lparr>blacklist := Some bl\<rparr>"
  by (simp add: storage_sync_set_blacklist_def sync_getBlacklist)

lemma importBlacklist_hash_defined:
  assumes "hash this = Some h"
  shows "(list = [] \<longrightarrow> importBlacklist this list w = (Returned JUndefined, w))
       \<and> (list \<noteq> [] \<longrightarrow>
            fst (importBlacklist this list w) = Returned JUndefined
          \<and> sync (snd (importBlacklist this list w)) =
              (sync w)\<lparr>blacklist := Some (patterns (sync w) @
                 keepFirst (filter (\<lambda>t. t \<notin> set (patterns (sync w)) \<and> h t)
                                   (map trim (split_comma list))))\<rparr>
          \<and> trace (snd (importBlacklist this list w)) =
              trace (snd (getBlacklist w)) @
                [StorageSet_blacklist (patterns (sync w) @
                   keepFirst (filter (\<lambda>t. t \<notin> set (patterns (sync w)) \<and> h t)
                                     (map trim (split_comma list)))),
                 SendMessage_blacklistUpdated])"
proof -
  let ?new = "patterns (sync w) @
                 keepFirst (filter (\<lambda>t. t \<notin> set (patterns (sync w)) \<and> h t)
                                   (map trim (split_comma list)))"
  have e: "list = [] \<longrightarrow> importBlacklist this list w = (Returned JUndefined, w)"
    by (simp add: importBlacklist_eq)
  have r: "list \<noteq> [] \<longrightarrow> importBlacklist this list w =
             (Returned JUndefined,
              runtime_sendMessage_blacklistUpdated
                (storage_sync_set_blacklist ?new (snd (getBlacklist w))))"
    using assms by (simp add: importBlacklist_eq importLoop_Some)
  have s: "sync (runtime_sendMessage_blacklistUpdated
                (storage_sync_set_blacklist ?new (snd (getBlacklist w))))
           = (sync w)\<lparr>blacklist := Some ?new\<rparr>"
    by (simp add: runtime_sendMessage_blacklistUpdated_def set_blacklist_twice)
  have t: "trace (runtime_sendMessage_blacklistUpdated
                (storage_sync_set_blacklist ?new (snd (getBlacklist w))))
           = trace (snd (getBlacklist w)) @
               [StorageSet_blacklist ?new, SendMessage_blacklistUpdated]"
    by (simp add: runtime_sendMessage_blacklistUpdated_def storage_sync_set_blacklist_def)
  from e r s t show ?thesis by simp
qed

lemma importBlacklist_new_patterns:
  "patterns (sync (snd (importBlacklist HistoryBlock_new list w))) = patterns (sync w)"
proof (cases "list \<noteq> [] \<and> (\<forall>t\<in>set (split_comma list). trim t \<in> set (patterns (sync w)))")
  case True
  then have "importBlacklist HistoryBlock_new list w =
      (Returned JUndefined,
       runtime_sendMessage_blacklistUpdated
         (storage_sync_set_blacklist (patterns (sync w)) (snd (getBlacklist w))))"
    by (simp add: importBlacklist_eq importLoop_None HistoryBlock_new_def)
  then show ?thesis
    by (simp add: runtime_sendMessage_blacklistUpdated_def set_blacklist_twice)
       (simp add: patterns_def)
next
  case False
  then show ?thesis
    by (auto simp: importBlacklist_eq importLoop_None HistoryBlock_new_def
        patterns_getBlacklist)
qed

lemma importBlacklist_new_throws:
  "list \<noteq> [] \<Longrightarrow> \<exists>t\<in>set (split_comma list). trim t \<notin> set (patterns (sync w)) \<Longrightarrow>
   importBlacklist HistoryBlock_new list w = (Threw TypeError, snd (getBlacklist w))"
  by (auto simp: importBlacklist_eq importLoop_None HistoryBlock_new_def)

lemma distinct_block:
  "distinct (patterns (sync w)) \<Longrightarrow> distinct (patterns (sync (snd (block regex w))))"
  by (simp add: block_eq runtime_sendMessage_blacklistUpdated_def set_blacklist_twice
      patterns_getBlacklist) (simp add: patterns_def)

lemma distinct_unblock:
  "distinct (patterns (sync w)) \<Longrightarrow> distinct (patterns (sync (snd (unblock regex w))))"
  by (simp add: unblock_eq runtime_sendMessage_blacklistUpdated_def set_blacklist_twice
      patterns_getBlacklist) (simp add: patterns_def)

lemma distinct_importBlacklist:
  "distinct (patterns (sync w)) \<Longrightarrow>
   distinct (patterns (sync (snd (importBlacklist this list w))))"
  by (auto simp: importBlacklist_eq runtime_sendMessage_blacklistUpdated_def
      set_blacklist_twice patterns_getBlacklist patterns_def [of "_\<lparr>blacklist := _\<rparr>"]
      dest: importLoop_distinct split: sum.splits)

lemma patterns_clearBlacklist: "patterns (sync (snd (clearBlacklist w))) = []"
  by (simp add: clearBlacklist_def runtime_sendMessage_blacklistUpdated_def Let_def
      patterns_getBlacklist) (simp add: storage_sync_remove_blacklist_def patterns_def)

lemma patterns_changeListMode:
  "patterns (sync (snd (changeListMode v w))) = patterns (sync w)"
  by (simp add: changeListMode_def storage_sync_set_listMode_def Let_def patterns_def)

section \<open>The claims\<close>

subsection \<open>C2: the first access\<close>

text \<open>
  C2, as the code has it. When no \<open>blacklist\<close> is stored, \<open>getBlacklist\<close> stores the empty
  list under that key alone, with one call of \<open>storage.sync.set\<close>, and returns the empty
  list; \<open>listMode\<close> is not written and keeps the value it had. A second call returns the same
  list and changes nothing.
\<close>

theorem getBlacklist_first_access:
  assumes "blacklist (sync w) = None"
  shows "getBlacklist w =
           (Some [], w\<lparr>sync := (sync w)\<lparr>blacklist := Some []\<rparr>,
                       trace := trace w @ [StorageSet_blacklist []]\<rparr>)
       \<and> listMode (sync (snd (getBlacklist w))) = listMode (sync w)
       \<and> getBlacklist (snd (getBlacklist w)) = (Some [], snd (getBlacklist w))"
  using assms by (simp add: getBlacklist_def storage_sync_set_blacklist_def Let_def)

text \<open>The first access on a profile that stores nothing.\<close>

theorem getBlacklist_first_access_witness:
  "blacklist (sync fresh) = None
   \<and> getBlacklist fresh =
       (Some [], \<lparr>sync = \<lparr>blacklist = Some [], listMode = JUndefined\<rparr>,
                  trace = [StorageSet_blacklist []]\<rparr>)
   \<and> getBlacklist (snd (getBlacklist fresh)) = (Some [], snd (getBlacklist fresh))"
proof -
  have h: "blacklist (sync fresh) = None" by (simp add: fresh_def)
  from getBlacklist_first_access [OF h] h show ?thesis
    by (simp add: fresh_def getBlacklist_def storage_sync_set_blacklist_def Let_def)
qed

text \<open>
  C2 as stated fails: after the first access on a profile that stores nothing, the mode is
  not \<open>blacklist\<close>, and the only call made stored the empty list.
\<close>

theorem getBlacklist_sets_no_listMode:
  "listMode (sync (snd (getBlacklist fresh))) \<noteq> JStr ''blacklist''
   \<and> trace (snd (getBlacklist fresh)) = [StorageSet_blacklist []]"
  by (simp add: getBlacklist_def storage_sync_set_blacklist_def fresh_def Let_def)

subsection \<open>C3: a visit when no mode is stored\<close>

text \<open>
  C3, as the code has it. When \<open>listMode\<close> is absent, \<open>onPageVisited\<close> ends as it does with
  \<open>listMode\<close> set to \<open>whitelist\<close> and purges in the same cases: exactly when every stored
  pattern compiles and none matches the address. With no pattern stored every address is
  purged.
\<close>

theorem onPageVisited_without_listMode:
  assumes "listMode (sync w) = JUndefined"
  shows "fst (onPageVisited R url w)
           = fst (onPageVisited R url (w\<lparr>sync := (sync w)\<lparr>listMode := JStr ''whitelist''\<rparr>\<rparr>))
       \<and> (purged R url w
            \<longleftrightarrow> purged R url (w\<lparr>sync := (sync w)\<lparr>listMode := JStr ''whitelist''\<rparr>\<rparr>))
       \<and> (purged R url w
            \<longleftrightarrow> (\<forall>p\<in>set (patterns (sync w)). compiles R p \<and> \<not> matches R p url))
       \<and> (patterns (sync w) = [] \<longrightarrow> purged R url w)"
proof -
  let ?w' = "w\<lparr>sync := (sync w)\<lparr>listMode := JStr ''whitelist''\<rparr>\<rparr>"
  have p: "patterns ((sync w)\<lparr>listMode := JStr ''whitelist''\<rparr>) = patterns (sync w)"
    by (simp add: patterns_def)
  have 1: "fst (onPageVisited R url w) = fst (onPageVisited R url ?w')"
    using assms by (simp add: onPageVisited_eq p split: outcome.splits)
  have 2: "purged R url w \<longleftrightarrow> findMatch R url (patterns (sync w)) = Returned False"
    using assms by (simp add: purged_iff)
  have 3: "purged R url ?w' \<longleftrightarrow> findMatch R url (patterns (sync w)) = Returned False"
    by (simp add: purged_iff p)
  from 1 2 3 show ?thesis by (simp add: findMatch_False)
qed

text \<open>A visit on a profile that stores nothing is purged.\<close>

theorem onPageVisited_without_listMode_witness:
  "listMode (sync fresh) = JUndefined \<and> patterns (sync fresh) = []
   \<and> purged literal_RegExp ''https://example.org/'' fresh"
proof -
  have h: "listMode (sync fresh) = JUndefined" by (simp add: fresh_def)
  have e: "patterns (sync fresh) = []" by (simp add: fresh_def patterns_def)
  from onPageVisited_without_listMode [OF h, of literal_RegExp "''https://example.org/''"] h e
  show ?thesis by blast
qed

text \<open>
  C3 as stated fails: with no mode stored and the single pattern \<open>(\<close>, no pattern matches
  the address, and the address is not purged; the visit ends with the constructor's
  \<open>SyntaxError\<close>.
\<close>

theorem onPageVisited_without_listMode_invalid_pattern:
  "\<not> matches literal_RegExp ''('' ''https://example.org/''
   \<and> \<not> purged literal_RegExp ''https://example.org/'' (stored [''(''] JUndefined)
   \<and> fst (onPageVisited literal_RegExp ''https://example.org/'' (stored [''(''] JUndefined))
       = Threw SyntaxError"
  by (simp add: matches_def purged_def onPageVisited_def getBlacklist_def stored_def
      new_events_def literal_RegExp_def syntaxCharacter_def)

subsection \<open>C4: the two modes\<close>

text \<open>
  C4, as the code has it. In a state whose mode is \<open>blacklist\<close> or \<open>whitelist\<close>: under
  \<open>blacklist\<close> the address is purged exactly when some stored pattern matches it and every
  pattern stored before that one compiles; under \<open>whitelist\<close> exactly when every stored
  pattern compiles and none matches. When all stored patterns compile, the visit returns
  and purges exactly when the mode is \<open>blacklist\<close> and some pattern matches, or the mode is
  \<open>whitelist\<close> and none does. With no pattern stored, \<open>blacklist\<close> never purges and
  \<open>whitelist\<close> always does.
\<close>

theorem onPageVisited_mode_polarity:
  assumes "listMode (sync w) = JStr ''blacklist'' \<or> listMode (sync w) = JStr ''whitelist''"
  shows "(listMode (sync w) = JStr ''blacklist'' \<longrightarrow>
            (purged R url w \<longleftrightarrow>
               (\<exists>i<length (patterns (sync w)).
                   matches R (patterns (sync w) ! i) url
                 \<and> (\<forall>p\<in>set (take i (patterns (sync w))). compiles R p))))
       \<and> (listMode (sync w) = JStr ''whitelist'' \<longrightarrow>
            (purged R url w \<longleftrightarrow>
               (\<forall>p\<in>set (patterns (sync w)). compiles R p \<and> \<not> matches R p url)))
       \<and> ((\<forall>p\<in>set (patterns (sync w)). compiles R p) \<longrightarrow>
            fst (onPageVisited R url w) = Returned JUndefined
          \<and> (purged R url w \<longleftrightarrow>
               (listMode (sync w) = JStr ''blacklist'')
                 = (\<exists>p\<in>set (patterns (sync w)). matches R p url)))
       \<and> (patterns (sync w) = [] \<longrightarrow>
            (purged R url w \<longleftrightarrow> listMode (sync w) = JStr ''whitelist''))"
proof -
  have b: "listMode (sync w) = JStr ''blacklist'' \<longrightarrow>
            (purged R url w \<longleftrightarrow>
               (\<exists>i<length (patterns (sync w)).
                   matches R (patterns (sync w) ! i) url
                 \<and> (\<forall>p\<in>set (take i (patterns (sync w))). compiles R p)))"
    by (simp add: purged_iff findMatch_True)
  have wl: "listMode (sync w) = JStr ''whitelist'' \<longrightarrow>
            (purged R url w \<longleftrightarrow>
               (\<forall>p\<in>set (patterns (sync w)). compiles R p \<and> \<not> matches R p url))"
    by (simp add: purged_iff findMatch_False)
  have c: "(\<forall>p\<in>set (patterns (sync w)). compiles R p) \<longrightarrow>
            fst (onPageVisited R url w) = Returned JUndefined
          \<and> (purged R url w \<longleftrightarrow>
               (listMode (sync w) = JStr ''blacklist'')
                 = (\<exists>p\<in>set (patterns (sync w)). matches R p url))"
    by (auto simp: purged_iff onPageVisited_eq findMatch_all_compile)
  have e: "patterns (sync w) = [] \<longrightarrow>
            (purged R url w \<longleftrightarrow> listMode (sync w) = JStr ''whitelist'')"
    using assms by (auto simp: purged_iff)
  from b wl c e show ?thesis by blast
qed

text \<open>The pattern \<open>evil\<close> and the empty list, under both modes.\<close>

theorem onPageVisited_mode_polarity_witness:
  "(listMode (sync (stored [''evil''] (JStr ''blacklist''))) = JStr ''blacklist''
      \<or> listMode (sync (stored [''evil''] (JStr ''blacklist''))) = JStr ''whitelist'')
   \<and> purged literal_RegExp ''https://evil.com/x'' (stored [''evil''] (JStr ''blacklist''))
   \<and> \<not> purged literal_RegExp ''https://evil.com/x'' (stored [''evil''] (JStr ''whitelist''))
   \<and> \<not> purged literal_RegExp ''https://evil.com/x'' (stored [] (JStr ''blacklist''))
   \<and> purged literal_RegExp ''https://evil.com/x'' (stored [] (JStr ''whitelist''))"
proof -
  let ?u = "''https://evil.com/x''"
  have hb: "listMode (sync (stored bl (JStr ''blacklist''))) = JStr ''blacklist''
      \<or> listMode (sync (stored bl (JStr ''blacklist''))) = JStr ''whitelist''" for bl
    by (simp add: stored_def)
  have hw: "listMode (sync (stored bl (JStr ''whitelist''))) = JStr ''blacklist''
      \<or> listMode (sync (stored bl (JStr ''whitelist''))) = JStr ''whitelist''" for bl
    by (simp add: stored_def)
  have m: "matches literal_RegExp ''evil'' ?u" "compiles literal_RegExp ''evil''"
    by (simp_all add: matches_def compiles_def literal_RegExp_def syntaxCharacter_def)
  have s: "patterns (sync (stored bl v)) = bl" "listMode (sync (stored bl v)) = v" for bl v
    by (simp_all add: stored_def patterns_def)
  from onPageVisited_mode_polarity [OF hb [of "[''evil'']"], of literal_RegExp ?u]
       onPageVisited_mode_polarity [OF hw [of "[''evil'']"], of literal_RegExp ?u]
       onPageVisited_mode_polarity [OF hb [of "[]"], of literal_RegExp ?u]
       onPageVisited_mode_polarity [OF hw [of "[]"], of literal_RegExp ?u]
       hb [of "[''evil'']"] m
  show ?thesis by (simp add: s)
qed

text \<open>
  C4 as stated fails: under \<open>blacklist\<close> with the patterns \<open>(\<close> and \<open>evil\<close>, the stored
  pattern \<open>evil\<close> matches the address and the address is not purged.
\<close>

theorem onPageVisited_match_after_invalid_pattern:
  "matches literal_RegExp ''evil'' ''https://evil.com/x''
   \<and> \<not> purged literal_RegExp ''https://evil.com/x''
         (stored [''('', ''evil''] (JStr ''blacklist''))"
  by (simp add: matches_def purged_def onPageVisited_def getBlacklist_def stored_def
      new_events_def literal_RegExp_def syntaxCharacter_def)

subsection \<open>C1: importing a list\<close>

text \<open>
  C1 fails on the object the constructor makes. The loop of \<open>importBlacklist\<close> reads
  \<open>this.hash.test\<close> for the first piece that is not stored yet, and \<open>this.hash\<close> is
  \<open>undefined\<close>: on a profile that stores nothing, the input \<open>a,b,a, c\<close> ends with a
  \<open>TypeError\<close>; only the empty list of the first access is stored, the three patterns are
  not, and no count is returned.
\<close>

theorem importBlacklist_throws_TypeError:
  "importBlacklist HistoryBlock_new ''a,b,a, c'' fresh
     = (Threw TypeError,
        \<lparr>sync = \<lparr>blacklist = Some [], listMode = JUndefined\<rparr>,
         trace = [StorageSet_blacklist []]\<rparr>)
   \<and> patterns (sync (snd (importBlacklist HistoryBlock_new ''a,b,a, c'' fresh)))
       \<noteq> [''a'', ''b'', ''c'']"
  by (simp add: importBlacklist_def getBlacklist_def fresh_def HistoryBlock_new_def
      storage_sync_set_blacklist_def trim_def isWhiteSpace_def patterns_def)

subsection \<open>C5: adding a pattern\<close>

text \<open>
  C5, as the code has it. \<open>block\<close> takes its argument as it is given, without trimming it,
  the empty string too, and returns no value. When the argument is already in the list (the
  same string), nothing changes and no call is made. Otherwise the argument is appended
  after the patterns stored so far, the list is stored with one \<open>storage.sync.set\<close>, and the
  \<open>blacklistUpdated\<close> message is sent.
\<close>

theorem block_appends_argument:
  "fst (block regex w) = Returned JUndefined
   \<and> (regex \<in> set (patterns (sync w)) \<longrightarrow> block regex w = (Returned JUndefined, w))
   \<and> (regex \<notin> set (patterns (sync w)) \<longrightarrow>
        sync (snd (block regex w)) = (sync w)\<lparr>blacklist := Some (patterns (sync w) @ [regex])\<rparr>
      \<and> trace (snd (block regex w)) =
          trace (snd (getBlacklist w))
            @ [StorageSet_blacklist (patterns (sync w) @ [regex]), SendMessage_blacklistUpdated])"
proof -
  have 1: "fst (block regex w) = Returned JUndefined"
    by (simp add: block_eq)
  have 2: "regex \<in> set (patterns (sync w)) \<longrightarrow> block regex w = (Returned JUndefined, w)"
    by (simp add: block_eq stored_patterns)
  have 3: "regex \<notin> set (patterns (sync w)) \<longrightarrow>
        sync (snd (block regex w)) = (sync w)\<lparr>blacklist := Some (patterns (sync w) @ [regex])\<rparr>"
    by (simp add: block_eq runtime_sendMessage_blacklistUpdated_def set_blacklist_twice)
  have 4: "regex \<notin> set (patterns (sync w)) \<longrightarrow>
        trace (snd (block regex w)) =
          trace (snd (getBlacklist w))
            @ [StorageSet_blacklist (patterns (sync w) @ [regex]), SendMessage_blacklistUpdated]"
    by (simp add: block_eq runtime_sendMessage_blacklistUpdated_def
        storage_sync_set_blacklist_def)
  from 1 2 3 4 show ?thesis by blast
qed

text \<open>A new pattern and a pattern already stored.\<close>

theorem block_appends_argument_witness:
  "''b'' \<notin> set (patterns (sync (stored [''a''] JUndefined)))
   \<and> ''a'' \<in> set (patterns (sync (stored [''a''] JUndefined)))
   \<and> sync (snd (block ''b'' (stored [''a''] JUndefined)))
       = \<lparr>blacklist = Some [''a'', ''b''], listMode = JUndefined\<rparr>
   \<and> trace (snd (block ''b'' (stored [''a''] JUndefined)))
       = [StorageSet_blacklist [''a'', ''b''], SendMessage_blacklistUpdated]
   \<and> block ''a'' (stored [''a''] JUndefined) = (Returned JUndefined, stored [''a''] JUndefined)"
proof -
  have p: "patterns (sync (stored [''a''] JUndefined)) = [''a'']"
    by (simp add: stored_def patterns_def)
  have g: "getBlacklist (stored [''a''] JUndefined) = (Some [''a''], stored [''a''] JUndefined)"
    by (simp add: getBlacklist_def stored_def)
  from block_appends_argument [of "''b''" "stored [''a''] JUndefined"]
       block_appends_argument [of "''a''" "stored [''a''] JUndefined"]
  show ?thesis by (simp add: p g) (simp add: stored_def)
qed

text \<open>
  C5 as stated fails: \<open>block\<close> appends the argument with its leading space although the
  trimmed string is already stored, it appends the empty string, and what it returns is
  not \<open>false\<close>.
\<close>

theorem block_does_not_trim:
  "trim '' a'' = ''a''
   \<and> patterns (sync (snd (block '' a'' (stored [''a''] JUndefined)))) = [''a'', '' a'']
   \<and> patterns (sync (snd (block [] fresh))) = [[]]
   \<and> fst (block ''a'' (stored [''a''] JUndefined)) \<noteq> Returned (JBool False)"
  by (simp add: trim_def isWhiteSpace_def block_def getBlacklist_def stored_def fresh_def
      patterns_def storage_sync_set_blacklist_def runtime_sendMessage_blacklistUpdated_def)

subsection \<open>C8: removing a pattern\<close>

text \<open>
  C8, as the code has it. \<open>unblock\<close> returns no value. When the argument is in the list, its
  first occurrence is removed, the list is stored with one \<open>storage.sync.set\<close>, and the
  \<open>blacklistUpdated\<close> message is sent. When it is not, the pattern list stays as it is and
  the only change is that of \<open>getBlacklist\<close>: none when a list is stored.
\<close>

theorem unblock_removes_first_occurrence:
  "fst (unblock regex w) = Returned JUndefined
   \<and> (regex \<in> set (patterns (sync w)) \<longrightarrow>
        sync (snd (unblock regex w))
          = (sync w)\<lparr>blacklist := Some (remove1 regex (patterns (sync w)))\<rparr>
      \<and> trace (snd (unblock regex w)) =
          trace w @ [StorageSet_blacklist (remove1 regex (patterns (sync w))),
                     SendMessage_blacklistUpdated])
   \<and> (regex \<notin> set (patterns (sync w)) \<longrightarrow>
        unblock regex w = (Returned JUndefined, snd (getBlacklist w))
      \<and> patterns (sync (snd (unblock regex w))) = patterns (sync w)
      \<and> (blacklist (sync w) \<noteq> None \<longrightarrow> unblock regex w = (Returned JUndefined, w)))"
proof -
  have 1: "fst (unblock regex w) = Returned JUndefined"
    by (simp add: unblock_eq)
  have 2: "regex \<in> set (patterns (sync w)) \<longrightarrow>
        sync (snd (unblock regex w))
          = (sync w)\<lparr>blacklist := Some (remove1 regex (patterns (sync w)))\<rparr>"
    by (simp add: unblock_eq runtime_sendMessage_blacklistUpdated_def set_blacklist_twice)
  have 3: "regex \<in> set (patterns (sync w)) \<longrightarrow>
        trace (snd (unblock regex w)) =
          trace w @ [StorageSet_blacklist (remove1 regex (patterns (sync w))),
                     SendMessage_blacklistUpdated]"
    by (simp add: unblock_eq runtime_sendMessage_blacklistUpdated_def
        storage_sync_set_blacklist_def stored_patterns)
  have 4: "regex \<notin> set (patterns (sync w)) \<longrightarrow>
        unblock regex w = (Returned JUndefined, snd (getBlacklist w))
      \<and> patterns (sync (snd (unblock regex w))) = patterns (sync w)
      \<and> (blacklist (sync w) \<noteq> None \<longrightarrow> unblock regex w = (Returned JUndefined, w))"
  proof (intro impI conjI)
    assume n: "regex \<notin> set (patterns (sync w))"
    then show u: "unblock regex w = (Returned JUndefined, snd (getBlacklist w))"
      by (simp add: unblock_eq)
    then show "patterns (sync (snd (unblock regex w))) = patterns (sync w)"
      by (simp add: patterns_getBlacklist)
    assume "blacklist (sync w) \<noteq> None"
    with u show "unblock regex w = (Returned JUndefined, w)"
      by (simp add: getBlacklist_snd)
  qed
  from 1 2 3 4 show ?thesis by blast
qed

text \<open>A pattern stored twice, and a pattern that is not stored.\<close>

theorem unblock_removes_first_occurrence_witness:
  "''a'' \<in> set (patterns (sync (stored [''b'', ''a'', ''c'', ''a''] JUndefined)))
   \<and> ''x'' \<notin> set (patterns (sync (stored [''b'', ''a'', ''c'', ''a''] JUndefined)))
   \<and> sync (snd (unblock ''a'' (stored [''b'', ''a'', ''c'', ''a''] JUndefined)))
       = \<lparr>blacklist = Some [''b'', ''c'', ''a''], listMode = JUndefined\<rparr>
   \<and> unblock ''x'' (stored [''b'', ''a'', ''c'', ''a''] JUndefined)
       = (Returned JUndefined, stored [''b'', ''a'', ''c'', ''a''] JUndefined)"
proof -
  let ?w = "stored [''b'', ''a'', ''c'', ''a''] JUndefined"
  have p: "patterns (sync ?w) = [''b'', ''a'', ''c'', ''a'']"
    by (simp add: stored_def patterns_def)
  have b: "blacklist (sync ?w) \<noteq> None" by (simp add: stored_def)
  from unblock_removes_first_occurrence [of "''a''" ?w]
       unblock_removes_first_occurrence [of "''x''" ?w] b
  show ?thesis by (simp add: p) (simp add: stored_def getBlacklist_def)
qed

text \<open>
  C8 as stated fails: what \<open>unblock\<close> returns is neither \<open>true\<close> for a stored pattern nor
  \<open>false\<close> for an absent one, and on a profile that stores nothing the storage changes.
\<close>

theorem unblock_returns_no_boolean:
  "fst (unblock ''a'' (stored [''a''] JUndefined)) \<noteq> Returned (JBool True)
   \<and> fst (unblock ''a'' fresh) \<noteq> Returned (JBool False)
   \<and> sync (snd (unblock ''a'' fresh)) \<noteq> sync fresh"
  by (simp add: unblock_def getBlacklist_def stored_def fresh_def
      storage_sync_set_blacklist_def runtime_sendMessage_blacklistUpdated_def)
subsection \<open>C6: changing the mode\<close>

text \<open>
  C6, as the code has it. The check of the mode is in the options page: for an argument
  other than \<open>blacklist\<close> and \<open>whitelist\<close>, \<open>Options.changeListMode\<close> changes nothing and
  makes no call; for one of the two it stores the mode with one \<open>storage.sync.set\<close>. The
  background script's \<open>changeListMode\<close> stores every value that is not falsy as it is
  given. For a falsy one it calls \<open>storage.sync.set\<close> once, with the mode it has just read
  (\<open>undefined\<close> when none is stored), which leaves the storage as it was. The pattern list
  is never changed.
\<close>

theorem changeListMode_validation:
  "(v \<noteq> JStr ''blacklist'' \<and> v \<noteq> JStr ''whitelist'' \<longrightarrow>
      Options_changeListMode this v w = (Returned JUndefined, w))
   \<and> (v = JStr ''blacklist'' \<or> v = JStr ''whitelist'' \<longrightarrow>
      Options_changeListMode this v w =
        (Returned JUndefined,
         w\<lparr>sync := (sync w)\<lparr>listMode := v\<rparr>, trace := trace w @ [StorageSet_listMode v]\<rparr>))
   \<and> (\<not> falsy v \<longrightarrow>
      changeListMode v w =
        (Returned JUndefined,
         w\<lparr>sync := (sync w)\<lparr>listMode := v\<rparr>, trace := trace w @ [StorageSet_listMode v]\<rparr>))
   \<and> (falsy v \<longrightarrow>
      changeListMode v w =
        (Returned JUndefined, w\<lparr>trace := trace w @ [StorageSet_listMode (listMode (sync w))]\<rparr>))
   \<and> (falsy v \<longrightarrow> sync (snd (changeListMode v w)) = sync w)
   \<and> blacklist (sync (snd (changeListMode v w))) = blacklist (sync w)"
proof -
  have t: "\<not> falsy v \<longrightarrow>
      changeListMode v w =
        (Returned JUndefined,
         w\<lparr>sync := (sync w)\<lparr>listMode := v\<rparr>, trace := trace w @ [StorageSet_listMode v]\<rparr>)"
    by (cases v) (simp_all add: changeListMode_def storage_sync_set_listMode_def Let_def)
  have 1: "v \<noteq> JStr ''blacklist'' \<and> v \<noteq> JStr ''whitelist'' \<longrightarrow>
      Options_changeListMode this v w = (Returned JUndefined, w)"
    by (simp add: Options_changeListMode_def)
  have 2: "v = JStr ''blacklist'' \<or> v = JStr ''whitelist'' \<longrightarrow>
      Options_changeListMode this v w =
        (Returned JUndefined,
         w\<lparr>sync := (sync w)\<lparr>listMode := v\<rparr>, trace := trace w @ [StorageSet_listMode v]\<rparr>)"
    using t by (auto simp: Options_changeListMode_def)
  have f: "falsy v \<longrightarrow>
      changeListMode v w =
        (Returned JUndefined, w\<lparr>trace := trace w @ [StorageSet_listMode (listMode (sync w))]\<rparr>)"
    by (simp add: changeListMode_def storage_sync_set_listMode_def Let_def)
  have 3: "falsy v \<longrightarrow> sync (snd (changeListMode v w)) = sync w"
    using f by simp
  have 4: "blacklist (sync (snd (changeListMode v w))) = blacklist (sync w)"
    by (simp add: changeListMode_def storage_sync_set_listMode_def Let_def)
  from 1 2 t f 3 4 show ?thesis by blast
qed

text \<open>
  An unknown mode and a known one through the options page; an unknown mode, the empty
  string and \<open>undefined\<close> at the background script.
\<close>

theorem changeListMode_validation_witness:
  "JStr ''foo'' \<noteq> JStr ''blacklist'' \<and> JStr ''foo'' \<noteq> JStr ''whitelist''
   \<and> Options_changeListMode HistoryBlock_new (JStr ''foo'') (stored [''a''] (JStr ''blacklist''))
       = (Returned JUndefined, stored [''a''] (JStr ''blacklist''))
   \<and> Options_changeListMode HistoryBlock_new (JStr ''whitelist'') (stored [''a''] (JStr ''blacklist''))
       = (Returned JUndefined,
          \<lparr>sync = \<lparr>blacklist = Some [''a''], listMode = JStr ''whitelist''\<rparr>,
           trace = [StorageSet_listMode (JStr ''whitelist'')]\<rparr>)
   \<and> \<not> falsy (JStr ''foo'')
   \<and> changeListMode (JStr ''foo'') (stored [''a''] (JStr ''blacklist''))
       = (Returned JUndefined,
          \<lparr>sync = \<lparr>blacklist = Some [''a''], listMode = JStr ''foo''\<rparr>,
           trace = [StorageSet_listMode (JStr ''foo'')]\<rparr>)
   \<and> falsy (JStr [])
   \<and> changeListMode (JStr []) (stored [''a''] (JStr ''blacklist''))
       = (Returned JUndefined,
          \<lparr>sync = \<lparr>blacklist = Some [''a''], listMode = JStr ''blacklist''\<rparr>,
           trace = [StorageSet_listMode (JStr ''blacklist'')]\<rparr>)
   \<and> falsy JUndefined
   \<and> changeListMode JUndefined fresh
       = (Returned JUndefined,
          \<lparr>sync = \<lparr>blacklist = None, listMode = JUndefined\<rparr>,
           trace = [StorageSet_listMode JUndefined]\<rparr>)"
proof -
  let ?w = "stored [''a''] (JStr ''blacklist'')"
  from changeListMode_validation [of "JStr ''foo''" HistoryBlock_new ?w]
       changeListMode_validation [of "JStr ''whitelist''" HistoryBlock_new ?w]
       changeListMode_validation [of "JStr []" HistoryBlock_new ?w]
       changeListMode_validation [of JUndefined HistoryBlock_new fresh]
  show ?thesis by (simp add: stored_def fresh_def)
qed

text \<open>
  C6 as stated fails: the background script's \<open>changeListMode\<close> stores the mode \<open>foo\<close>.
\<close>

theorem changeListMode_stores_any_value:
  "changeListMode (JStr ''foo'') (stored [''a''] (JStr ''blacklist''))
     = (Returned JUndefined,
        \<lparr>sync = \<lparr>blacklist = Some [''a''], listMode = JStr ''foo''\<rparr>,
         trace = [StorageSet_listMode (JStr ''foo'')]\<rparr>)"
  by (simp add: changeListMode_def storage_sync_set_listMode_def stored_def Let_def)
subsection \<open>C7: a pattern that does not compile\<close>

text \<open>
  C7, as the code has it. When the loop reaches a pattern that the constructor rejects,
  that is, when every pattern stored before it compiles and does not match, the visit ends
  with the \<open>SyntaxError\<close>: the patterns after it are not tried and nothing is purged. When a
  pattern stored before it matches (and those before it compile), the loop has stopped
  there, the visit returns, and the address is purged exactly under \<open>blacklist\<close>.
\<close>

theorem onPageVisited_invalid_pattern:
  assumes "\<not> compiles R p" and "patterns (sync w) = ps1 @ p # ps2"
  shows "((\<forall>q\<in>set ps1. compiles R q \<and> \<not> matches R q url) \<longrightarrow>
            onPageVisited R url w = (Threw SyntaxError, snd (getBlacklist w))
          \<and> \<not> purged R url w)
       \<and> ((\<exists>q\<in>set ps1. matches R q url) \<and> (\<forall>q\<in>set ps1. compiles R q) \<longrightarrow>
            fst (onPageVisited R url w) = Returned JUndefined
          \<and> (purged R url w \<longleftrightarrow> listMode (sync w) = JStr ''blacklist''))"
proof (intro conjI impI)
  assume a: "\<forall>q\<in>set ps1. compiles R q \<and> \<not> matches R q url"
  with assms have f: "findMatch R url (patterns (sync w)) = Threw SyntaxError"
    by (simp add: findMatch_invalid)
  then show "onPageVisited R url w = (Threw SyntaxError, snd (getBlacklist w))"
    by (simp add: onPageVisited_eq)
  from f show "\<not> purged R url w" by (simp add: purged_iff)
next
  assume "(\<exists>q\<in>set ps1. matches R q url) \<and> (\<forall>q\<in>set ps1. compiles R q)"
  with assms have f: "findMatch R url (patterns (sync w)) = Returned True"
    by (simp add: findMatch_after_match)
  then show "fst (onPageVisited R url w) = Returned JUndefined"
    by (simp add: onPageVisited_eq)
  from f show "purged R url w \<longleftrightarrow> listMode (sync w) = JStr ''blacklist''"
    by (auto simp: purged_iff)
qed

text \<open>The pattern \<open>(\<close> between two others, reached for one address and not for another.\<close>

theorem onPageVisited_invalid_pattern_witness:
  "\<not> compiles literal_RegExp ''(''
   \<and> patterns (sync (stored [''org'', ''('', ''example''] (JStr ''whitelist'')))
       = [''org''] @ ''('' # [''example'']
   \<and> fst (onPageVisited literal_RegExp ''https://example.com/''
            (stored [''org'', ''('', ''example''] (JStr ''whitelist''))) = Threw SyntaxError
   \<and> \<not> purged literal_RegExp ''https://example.com/''
         (stored [''org'', ''('', ''example''] (JStr ''whitelist''))
   \<and> fst (onPageVisited literal_RegExp ''https://example.org/''
            (stored [''org'', ''('', ''example''] (JStr ''whitelist''))) = Returned JUndefined"
proof -
  let ?w = "stored [''org'', ''('', ''example''] (JStr ''whitelist'')"
  have c: "\<not> compiles literal_RegExp ''(''"
    by (simp add: compiles_def literal_RegExp_def syntaxCharacter_def)
  have p: "patterns (sync ?w) = [''org''] @ ''('' # [''example'']"
    by (simp add: stored_def patterns_def)
  have o: "compiles literal_RegExp ''org''"
    "\<not> matches literal_RegExp ''org'' ''https://example.com/''"
    "matches literal_RegExp ''org'' ''https://example.org/''"
    by (simp_all add: compiles_def matches_def literal_RegExp_def syntaxCharacter_def)
  from onPageVisited_invalid_pattern [OF c p, of "''https://example.com/''"]
       onPageVisited_invalid_pattern [OF c p, of "''https://example.org/''"] c p o
  show ?thesis by simp
qed

text \<open>
  C7 as stated fails: with the patterns \<open>(\<close> and \<open>example\<close> the visit ends with a
  \<open>SyntaxError\<close>, the second pattern matches the address, and no call is made.
\<close>

theorem onPageVisited_throws_SyntaxError:
  "fst (onPageVisited literal_RegExp ''https://example.org/''
          (stored [''('', ''example''] (JStr ''blacklist''))) = Threw SyntaxError
   \<and> matches literal_RegExp ''example'' ''https://example.org/''
   \<and> trace (snd (onPageVisited literal_RegExp ''https://example.org/''
          (stored [''('', ''example''] (JStr ''blacklist'')))) = []"
  by (simp add: matches_def onPageVisited_def getBlacklist_def stored_def
      literal_RegExp_def syntaxCharacter_def)

subsection \<open>C9: what a visit stores\<close>

text \<open>
  C9, as the code has it. A visit leaves the pattern list as \<open>getBlacklist\<close> reads it, the
  mode and every other stored key as they were. When a list is stored, the storage is
  unchanged and never written. When none is stored, \<open>getBlacklist\<close> stores the empty list,
  and that is the only write.
\<close>

theorem onPageVisited_storage_frame:
  "sync (snd (onPageVisited R url w)) =
     (if blacklist (sync w) = None then (sync w)\<lparr>blacklist := Some []\<rparr> else sync w)
   \<and> patterns (sync (snd (onPageVisited R url w))) = patterns (sync w)
   \<and> listMode (sync (snd (onPageVisited R url w))) = listMode (sync w)
   \<and> storage.more (sync (snd (onPageVisited R url w))) = storage.more (sync w)
   \<and> filter is_storage_write (new_events w (snd (onPageVisited R url w))) =
       (if blacklist (sync w) = None then [StorageSet_blacklist []] else [])"
proof -
  have s: "sync (snd (onPageVisited R url w)) = sync (snd (getBlacklist w))"
    by (simp add: onPageVisited_eq history_deleteUrl_def split: outcome.splits)
  have t: "filter is_storage_write (new_events w (snd (onPageVisited R url w)))
           = filter is_storage_write (new_events w (snd (getBlacklist w)))"
    by (simp add: onPageVisited_eq history_deleteUrl_def new_events_def trace_getBlacklist
        split: outcome.splits)
  have t': "filter is_storage_write (new_events w (snd (getBlacklist w)))
            = (if blacklist (sync w) = None then [StorageSet_blacklist []] else [])"
    by (simp add: new_events_def trace_getBlacklist)
  from s t t' show ?thesis
    by (simp add: sync_getBlacklist patterns_def)
qed

text \<open>A visit with a stored list, and one on a profile that stores nothing.\<close>

theorem onPageVisited_storage_frame_witness:
  "sync (snd (onPageVisited literal_RegExp ''https://evil.com/x''
                (stored [''evil''] (JStr ''blacklist''))))
     = sync (stored [''evil''] (JStr ''blacklist''))
   \<and> filter is_storage_write
        (new_events (stored [''evil''] (JStr ''blacklist''))
           (snd (onPageVisited literal_RegExp ''https://evil.com/x''
                  (stored [''evil''] (JStr ''blacklist''))))) = []
   \<and> sync (snd (onPageVisited literal_RegExp ''https://evil.com/x'' fresh))
     = \<lparr>blacklist = Some [], listMode = JUndefined\<rparr>"
proof -
  have b: "blacklist (sync (stored [''evil''] (JStr ''blacklist''))) \<noteq> None"
    "blacklist (sync fresh) = None"
    by (simp_all add: stored_def fresh_def)
  from onPageVisited_storage_frame
         [of literal_RegExp "''https://evil.com/x''" "stored [''evil''] (JStr ''blacklist'')"]
       onPageVisited_storage_frame [of literal_RegExp "''https://evil.com/x''" fresh] b
  show ?thesis by (simp add: fresh_def)
qed

text \<open>
  C9 as stated fails: on a profile that stores nothing, the storage after the visit is not
  the storage before it.
\<close>

theorem onPageVisited_initialises_blacklist:
  "sync (snd (onPageVisited literal_RegExp ''https://example.org/'' fresh)) \<noteq> sync fresh
   \<and> trace (snd (onPageVisited literal_RegExp ''https://example.org/'' fresh))
       = [StorageSet_blacklist [], History_deleteUrl ''https://example.org/'']"
  by (simp add: onPageVisited_def getBlacklist_def fresh_def storage_sync_set_blacklist_def
      history_deleteUrl_def Let_def)

subsection \<open>C10: no pattern is stored twice\<close>

text \<open>
  C10. From a state whose pattern list has no entry twice, \<open>block\<close>, \<open>unblock\<close>,
  \<open>importBlacklist\<close> (whatever \<open>this.hash\<close> is, and whether it returns or throws),
  \<open>clearBlacklist\<close> and \<open>changeListMode\<close>, and so every message that \<open>onMessage\<close> routes,
  lead to a state whose pattern list has no entry twice.
\<close>

theorem patterns_stay_distinct:
  assumes "distinct (patterns (sync w))"
  shows "distinct (patterns (sync (snd (block regex w))))
       \<and> distinct (patterns (sync (snd (unblock regex w))))
       \<and> distinct (patterns (sync (snd (importBlacklist this list w))))
       \<and> distinct (patterns (sync (snd (clearBlacklist w))))
       \<and> distinct (patterns (sync (snd (changeListMode v w))))
       \<and> distinct (patterns (sync (snd (onMessage this msg w))))"
proof -
  have m: "distinct (patterns (sync (snd (onMessage this msg w))))"
    using assms
    by (cases msg)
       (simp_all add: distinct_block distinct_unblock distinct_importBlacklist
          patterns_clearBlacklist patterns_changeListMode)
  with assms show ?thesis
    by (simp add: distinct_block distinct_unblock distinct_importBlacklist
          patterns_clearBlacklist patterns_changeListMode)
qed

text \<open>Two stored patterns; adding one of them again, and importing one of them and a new one.\<close>

theorem patterns_stay_distinct_witness:
  "distinct (patterns (sync (stored [''a'', ''b''] JUndefined)))
   \<and> patterns (sync (snd (block ''a'' (stored [''a'', ''b''] JUndefined)))) = [''a'', ''b'']
   \<and> distinct (patterns (sync (snd (block ''a'' (stored [''a'', ''b''] JUndefined)))))
   \<and> distinct (patterns (sync (snd (importBlacklist HistoryBlock_new ''b,c''
                                      (stored [''a'', ''b''] JUndefined)))))"
proof -
  let ?w = "stored [''a'', ''b''] JUndefined"
  have d: "distinct (patterns (sync ?w))" by (simp add: stored_def patterns_def)
  have b: "patterns (sync (snd (block ''a'' ?w))) = [''a'', ''b'']"
    by (simp add: block_def getBlacklist_def stored_def patterns_def)
  from patterns_stay_distinct [OF d, of "''a''" HistoryBlock_new "''b,c''"] d b
  show ?thesis by simp
qed

end
